theory Spec2Isabelle
  imports Main "HOL-Library.Word"
begin

unbundle bit_operations_syntax

section \<open>DRTP: a reliable transport over UDP (application.py)\<close>

text \<open>
  Python integers are unbounded and are modelled as \<open>int\<close>; a \<open>bytes\<close> object is a list of
  8-bit words. Every exception the source can raise is a value of \<open>py_error\<close>, and a function
  that can raise returns a sum with the error on the left.
\<close>

type_synonym byte = "8 word"
type_synonym bytes = "byte list"

datatype py_error =
    StructError          \<comment> \<open>\<open>struct.error\<close>, raised by \<open>struct.pack\<close> and \<open>struct.unpack\<close>\<close>
  | UnboundLocalError    \<comment> \<open>reading a local variable that was never assigned\<close>
  | IndexError           \<comment> \<open>list index out of range\<close>
  | Exception string     \<comment> \<open>\<open>raise Exception(msg)\<close>\<close>

subsection \<open>Module constants\<close>

definition syn_flag :: int where "syn_flag = 4"
definition ack_flag :: int where "ack_flag = 2"
definition fin_flag :: int where "fin_flag = 8"
definition res_flag :: int where "res_flag = 0"
definition header_size :: nat where "header_size = 8"
definition max_data :: nat where "max_data = 992"

text \<open>\<open>timeout = 0.4\<close> seconds, kept in milliseconds.\<close>

definition timeout_ms :: nat where "timeout_ms = 400"

subsection \<open>Header codec\<close>

text \<open>
  \<open>struct.pack("!HHHH", ...)\<close> writes four unsigned 16-bit fields in network byte order and
  raises \<open>struct.error\<close> when a field is outside \<open>0..65535\<close>; \<open>struct.unpack("!HHHH", b)\<close>
  raises \<open>struct.error\<close> unless \<open>b\<close> has exactly 8 bytes.
\<close>

definition u16_ok :: "int \<Rightarrow> bool" where
  "u16_ok v \<longleftrightarrow> 0 \<le> v \<and> v \<le> 65535"

definition be16 :: "int \<Rightarrow> bytes" where
  "be16 v = [word_of_int (v div 256), word_of_int (v mod 256)]"

definition un_be16 :: "byte \<Rightarrow> byte \<Rightarrow> int" where
  "un_be16 hi lo = uint hi * 256 + uint lo"

definition struct_pack_HHHH :: "int \<Rightarrow> int \<Rightarrow> int \<Rightarrow> int \<Rightarrow> py_error + bytes" where
  "struct_pack_HHHH a b c d =
     (if u16_ok a \<and> u16_ok b \<and> u16_ok c \<and> u16_ok d
      then Inr (be16 a @ be16 b @ be16 c @ be16 d)
      else Inl StructError)"

definition struct_unpack_HHHH :: "bytes \<Rightarrow> py_error + (int \<times> int \<times> int \<times> int)" where
  "struct_unpack_HHHH bs =
     (if length bs = 8
      then Inr (un_be16 (bs ! 0) (bs ! 1), un_be16 (bs ! 2) (bs ! 3),
                un_be16 (bs ! 4) (bs ! 5), un_be16 (bs ! 6) (bs ! 7))
      else Inl StructError)"

definition create_header :: "int \<Rightarrow> int \<Rightarrow> int \<Rightarrow> int \<Rightarrow> py_error + bytes" where
  "create_header seq_num ack_num flags recv_window =
     struct_pack_HHHH seq_num ack_num flags recv_window"

definition parse_header :: "bytes \<Rightarrow> py_error + (int \<times> int \<times> int \<times> int)" where
  "parse_header header_bytes = struct_unpack_HHHH header_bytes"

definition create_packet :: "int \<Rightarrow> int \<Rightarrow> int \<Rightarrow> int \<Rightarrow> bytes \<Rightarrow> py_error + bytes" where
  "create_packet seq_num ack_num flags recv_window data =
     (case create_header seq_num ack_num flags recv_window of
        Inl e \<Rightarrow> Inl e
      | Inr header \<Rightarrow> Inr (header @ data))"

definition extract_packet :: "bytes \<Rightarrow> py_error + ((int \<times> int \<times> int \<times> int) \<times> bytes)" where
  "extract_packet packet =
     (case parse_header (take header_size packet) of
        Inl e \<Rightarrow> Inl e
      | Inr fields \<Rightarrow> Inr (fields, drop header_size packet))"

subsection \<open>Input and output\<close>

text \<open>
  The socket and the console are explicit. A function's output is the list of its effects in
  program order: a datagram handed to \<open>sock.sendto\<close>, a line given to \<open>print\<close> (its fixed
  text; interpolated clock times and numbers are left out) and a call of \<open>sock.settimeout\<close>
  (in milliseconds). Its input is the list of results of its successive \<open>sock.recvfrom\<close>
  calls; when that list is used up the function is still waiting in \<open>recvfrom\<close>. Wall-clock
  time, and with it the throughput figure computed from it, is outside the model.
\<close>

datatype event = SendTo bytes | Print string | SetTimeout nat

datatype recv_event = Timeout | Datagram bytes

datatype 'r status = Returned 'r | Raised py_error | Waiting

fun is_send :: "event \<Rightarrow> bool" where
  "is_send (SendTo _) = True"
| "is_send _ = False"

text \<open>
  Both transfer loops assign the local \<open>timestamp\<close> on one path only and read it on others;
  \<open>timestamp_set\<close> records whether the assignment has happened.
\<close>

record io_state =
  timestamp_set :: bool
  out :: "event list"

subsection \<open>Receiver: \<open>server_receive_files\<close>\<close>

record receiver = io_state +
  expected_seq :: int
  total_received :: int
  discard_once :: bool
  sink :: bytes

text \<open>Truth value of \<open>discard_seq\<close>, which is \<open>None\<close> or an integer.\<close>

definition truthy :: "int option \<Rightarrow> bool" where
  "truthy discard_seq = (case discard_seq of None \<Rightarrow> False | Some k \<Rightarrow> k \<noteq> 0)"

definition receiver_init :: "int option \<Rightarrow> receiver" where
  "receiver_init discard_seq =
     \<lparr>timestamp_set = False, out = [], expected_seq = 1, total_received = 0,
      discard_once = truthy discard_seq, sink = []\<rparr>"

text \<open>
  The path one pass through the loop body takes. \<open>Failed\<close> is an exception caught by the
  loop's \<open>except Exception\<close> handler, which prints it and breaks.
\<close>

datatype branch = Fin | Discard | InOrder | OutOfOrder | Failed py_error

fun continues :: "branch \<Rightarrow> bool" where
  "continues Fin = False"
| "continues Discard = True"
| "continues InOrder = True"
| "continues OutOfOrder = True"
| "continues (Failed _) = False"

text \<open>One pass through the body of \<open>while True\<close>, for the datagram \<open>recvfrom(2048)\<close> returns.\<close>

definition server_step :: "int option \<Rightarrow> receiver \<Rightarrow> bytes \<Rightarrow> branch \<times> receiver" where
  "server_step discard_seq st datagram =
     (case extract_packet (take 2048 datagram) of
        Inl e \<Rightarrow> (Failed e, st\<lparr>out := out st @ [Print ''Error:'']\<rparr>)
      | Inr ((seq, ack, flags, rwnd), payload) \<Rightarrow>
          if flags AND fin_flag \<noteq> 0 then
            (case create_packet 0 0 (fin_flag OR ack_flag) 0 [] of
               Inl e \<Rightarrow>
                 (Failed e, st\<lparr>out := out st @ [Print ''FIN packet is received'', Print ''Error:'']\<rparr>)
             | Inr fin_ack \<Rightarrow>
                 (Fin, st\<lparr>out := out st @ [Print ''FIN packet is received'', SendTo fin_ack,
                                           Print ''FIN ACK packet is sent'']\<rparr>))
          else if truthy discard_seq \<and> Some seq = discard_seq \<and> discard_once st then
            (Discard, st\<lparr>discard_once := False\<rparr>)
          else if seq = expected_seq st then
            (let st1 = st\<lparr>timestamp_set := True,
                          out := out st @ [Print ''packet is recieved''],
                          sink := sink st @ payload\<rparr>
             in case create_packet 0 seq ack_flag 0 [] of
                  Inl e \<Rightarrow> (Failed e, st1\<lparr>out := out st1 @ [Print ''Error:'']\<rparr>)
                | Inr ack_packet \<Rightarrow>
                    (InOrder,
                     st1\<lparr>out := out st1 @ [SendTo ack_packet, Print ''sending ack for the received''],
                         expected_seq := expected_seq st + 1,
                         total_received := total_received st + int (length payload)\<rparr>))
          else if timestamp_set st then
            (OutOfOrder, st\<lparr>out := out st @ [Print ''out-of-order packet is received'']\<rparr>)
          else
            (Failed UnboundLocalError, st\<lparr>out := out st @ [Print ''Error:'']\<rparr>))"

text \<open>
  The loop over the datagrams that arrive. The server socket has no timeout, so with no
  datagram left the loop is blocked in \<open>recvfrom\<close>.
\<close>

fun server_loop :: "int option \<Rightarrow> receiver \<Rightarrow> bytes list \<Rightarrow> receiver \<times> unit status" where
  "server_loop discard_seq st [] = (st, Waiting)"
| "server_loop discard_seq st (d # ds) =
     (case server_step discard_seq st d of
        (br, st') \<Rightarrow>
          if continues br then server_loop discard_seq st' ds else (st', Returned ()))"

definition server_receive_files :: "int option \<Rightarrow> bytes list \<Rightarrow> receiver \<times> unit status" where
  "server_receive_files discard_seq datagrams =
     (case server_loop discard_seq (receiver_init discard_seq) datagrams of
        (st, Returned u) \<Rightarrow>
          (st\<lparr>out := out st @ [Print ''The throughput is'', Print ''Connection Closes'']\<rparr>,
           Returned u)
      | r \<Rightarrow> r)"

subsection \<open>Handshake and teardown, client side\<close>

text \<open>
  \<open>client_handshake\<close> sends the SYN, then reads one reply. A timeout returns \<open>None\<close>; a reply
  that cannot be unpacked, a reply without both flags, and a reply whose \<open>seq + 1\<close> cannot be
  packed into the ACK all raise, and nothing in the function catches those.
\<close>

definition client_handshake :: "int \<Rightarrow> recv_event list \<Rightarrow> event list \<times> int option status" where
  "client_handshake sender_window evs =
     (case create_packet 1 0 syn_flag 0 [] of
        Inl e \<Rightarrow> ([], Raised e)
      | Inr syn_packet \<Rightarrow>
          (let tr = [SendTo syn_packet, Print ''Connection Establishment Phase:'',
                     Print ''SYN packet is sent'', SetTimeout timeout_ms]
           in case evs of
                [] \<Rightarrow> (tr, Waiting)
              | Timeout # _ \<Rightarrow> (tr @ [Print ''Timeout waiting for SYN-ACK''], Returned None)
              | Datagram d # _ \<Rightarrow>
                  (case extract_packet (take 1024 d) of
                     Inl e \<Rightarrow> (tr, Raised e)
                   | Inr ((seq, ack, flags, recv_window), _) \<Rightarrow>
                       if flags AND syn_flag \<noteq> 0 \<and> flags AND ack_flag \<noteq> 0 then
                         (case create_packet 2 (seq + 1) ack_flag 0 [] of
                            Inl e \<Rightarrow> (tr @ [Print ''SYN-ACK packet is received''], Raised e)
                          | Inr ack_packet \<Rightarrow>
                              (tr @ [Print ''SYN-ACK packet is received'', SendTo ack_packet,
                                     Print ''ACK packet is sent'', Print ''Connection established''],
                               Returned (Some (min sender_window recv_window))))
                       else (tr, Raised (Exception ''Expected SYN-ACK, wrong'')))))"

definition client_teardown :: "recv_event list \<Rightarrow> event list \<times> unit status" where
  "client_teardown evs =
     (case create_packet 0 0 fin_flag 0 [] of
        Inl e \<Rightarrow> ([], Raised e)
      | Inr fin_packet \<Rightarrow>
          (let tr = [SendTo fin_packet, Print ''FIN packet is sent'', SetTimeout timeout_ms]
           in case evs of
                [] \<Rightarrow> (tr, Waiting)
              | Timeout # _ \<Rightarrow> (tr @ [Print ''Timeout waiting for FIN-ACK''], Returned ())
              | Datagram d # _ \<Rightarrow>
                  (case extract_packet (take 1024 d) of
                     Inl e \<Rightarrow> (tr, Raised e)
                   | Inr ((seq, ack, flags, rwnd), _) \<Rightarrow>
                       if flags AND ack_flag \<noteq> 0 \<and> flags AND fin_flag \<noteq> 0
                       then (tr @ [Print ''FIN ACK packet is received''], Returned ())
                       else (tr, Returned ()))))"

subsection \<open>Sender: \<open>client_send_file\<close>\<close>

record sender = io_state +
  base :: int
  next_seq :: int

text \<open>\<open>xs[i]\<close> on a Python list: a negative index counts from the end.\<close>

definition py_index :: "'a list \<Rightarrow> int \<Rightarrow> py_error + 'a" where
  "py_index xs i =
     (if 0 \<le> i \<and> i < int (length xs) then Inr (xs ! nat i)
      else if i < 0 \<and> - int (length xs) \<le> i then Inr (xs ! nat (int (length xs) + i))
      else Inl IndexError)"

text \<open>The packets of the file: chunk \<open>i\<close> (from 0) travels with sequence number \<open>i + 1\<close>.\<close>

fun build_packets :: "bytes \<Rightarrow> nat list \<Rightarrow> py_error + bytes list" where
  "build_packets file_data [] = Inr []"
| "build_packets file_data (i # is) =
     (case create_packet (int i + 1) 0 0 0 (take max_data (drop (i * max_data) file_data)) of
        Inl e \<Rightarrow> Inl e
      | Inr packet \<Rightarrow>
          (case build_packets file_data is of
             Inl e \<Rightarrow> Inl e
           | Inr packets \<Rightarrow> Inr (packet # packets)))"

text \<open>The inner \<open>while\<close>: send what the window allows.\<close>

function send_window :: "int \<Rightarrow> int \<Rightarrow> bytes list \<Rightarrow> sender \<Rightarrow> (py_error \<times> sender) + sender" where
  "send_window window_size total_chunks packets st =
     (if next_seq st < base st + window_size \<and> next_seq st \<le> total_chunks then
        (case py_index packets (next_seq st - 1) of
           Inl e \<Rightarrow> Inl (e, st)
         | Inr packet \<Rightarrow>
             send_window window_size total_chunks packets
               (st\<lparr>timestamp_set := True,
                   out := out st @ [SendTo packet, Print ''packet is sent''],
                   next_seq := next_seq st + 1\<rparr>))
      else Inr st)"
  by pat_completeness auto
termination
  by (relation "measure (\<lambda>(window_size, total_chunks, packets, st). nat (total_chunks + 1 - next_seq st))")
    auto

declare send_window.simps [simp del]

text \<open>The \<open>for\<close> loop of the timeout handler, over \<open>range(base, next_seq)\<close>.\<close>

fun retransmit :: "bytes list \<Rightarrow> int list \<Rightarrow> sender \<Rightarrow> (py_error \<times> sender) + sender" where
  "retransmit packets [] st = Inr st"
| "retransmit packets (i # is) st =
     (case py_index packets (i - 1) of
        Inl e \<Rightarrow> Inl (e, st)
      | Inr packet \<Rightarrow>
          retransmit packets is
            (st\<lparr>out := out st @ [SendTo packet, Print ''retransmitting packet'']\<rparr>))"

text \<open>
  The \<open>try\<close> block after the send phase, for the result of its \<open>recvfrom(1024)\<close>. Only
  \<open>socket.timeout\<close> is caught; every other exception leaves the function.
\<close>

definition await_ack :: "bytes list \<Rightarrow> sender \<Rightarrow> recv_event \<Rightarrow> (py_error \<times> sender) + sender" where
  "await_ack packets st ev =
     (case ev of
        Datagram d \<Rightarrow>
          (case extract_packet (take 1024 d) of
             Inl e \<Rightarrow> Inl (e, st)
           | Inr ((seq, ack, flags, recv_window), _) \<Rightarrow>
               if flags AND ack_flag \<noteq> 0 then
                 (if \<not> timestamp_set st then Inl (UnboundLocalError, st)
                  else
                    (let st1 = st\<lparr>out := out st @ [Print ''ACK is received'']\<rparr>
                     in if ack \<ge> base st then Inr (st1\<lparr>base := ack + 1\<rparr>) else Inr st1))
               else Inr st)
      | Timeout \<Rightarrow>
          if \<not> timestamp_set st then Inl (UnboundLocalError, st)
          else retransmit packets [base st .. next_seq st - 1]
                 (st\<lparr>out := out st @ [Print ''RTO occured'']\<rparr>))"

text \<open>
  The outer \<open>while base <= total_chunks\<close>. Each pass reads one result of \<open>recvfrom\<close>; when the
  loop ends the results not yet read are handed back.
\<close>

fun client_loop ::
  "int \<Rightarrow> int \<Rightarrow> bytes list \<Rightarrow> sender \<Rightarrow> recv_event list \<Rightarrow> sender \<times> recv_event list status" where
  "client_loop window_size total_chunks packets st [] =
     (if base st \<le> total_chunks then
        (case send_window window_size total_chunks packets st of
           Inl (e, st1) \<Rightarrow> (st1, Raised e)
         | Inr st1 \<Rightarrow> (st1, Waiting))
      else (st, Returned []))"
| "client_loop window_size total_chunks packets st (ev # evs) =
     (if base st \<le> total_chunks then
        (case send_window window_size total_chunks packets st of
           Inl (e, st1) \<Rightarrow> (st1, Raised e)
         | Inr st1 \<Rightarrow>
             (case await_ack packets st1 ev of
                Inl (e, st2) \<Rightarrow> (st2, Raised e)
              | Inr st2 \<Rightarrow> client_loop window_size total_chunks packets st2 evs))
      else (st, Returned (ev # evs)))"

definition sender_init :: sender where
  "sender_init =
     \<lparr>timestamp_set = False, out = [Print ''Data Transfer:'', SetTimeout timeout_ms],
      base = 1, next_seq = 1\<rparr>"

text \<open>
  \<open>client_send_file\<close> on the bytes read from the file. It returns the number of bytes of the
  file (the elapsed time is not modelled) and the results of \<open>recvfrom\<close> it did not read.
\<close>

definition client_send_file ::
  "int \<Rightarrow> bytes \<Rightarrow> recv_event list \<Rightarrow> event list \<times> (int \<times> recv_event list) status" where
  "client_send_file window_size file_data evs =
     (let total_chunks = (int (length file_data) + int max_data - 1) div int max_data
      in case build_packets file_data [0 ..< nat total_chunks] of
           Inl e \<Rightarrow> ([], Raised e)
         | Inr packets \<Rightarrow>
             (case client_loop window_size total_chunks packets sender_init evs of
                (st, Returned rest) \<Rightarrow>
                  (out st @ [Print ''DATA finished'', Print ''Connection Teardown: ''],
                   Returned (int (length file_data), rest))
              | (st, Raised e) \<Rightarrow> (out st, Raised e)
              | (st, Waiting) \<Rightarrow> (out st, Waiting)))"

subsection \<open>The client branch of \<open>main\<close>\<close>

text \<open>
  \<open>window\<close> is \<open>args.window\<close>, \<open>file_data\<close> the content of \<open>args.file\<close>, \<open>evs\<close> what the socket
  delivers to the successive \<open>recvfrom\<close> calls of the whole run. The blank line printed after
  a successful handshake is \<open>Print []\<close>. The throughput computed after the teardown depends on
  the elapsed wall-clock time and is never printed; it is left out.
\<close>

definition main_client :: "int \<Rightarrow> bytes \<Rightarrow> recv_event list \<Rightarrow> event list \<times> unit status" where
  "main_client window file_data evs =
     (case client_handshake window evs of
        (tr, Raised e) \<Rightarrow> (tr, Raised e)
      | (tr, Waiting) \<Rightarrow> (tr, Waiting)
      | (tr, Returned None) \<Rightarrow> (tr @ [Print ''Handshake failed''], Returned ())
      | (tr, Returned (Some actual_window)) \<Rightarrow>
          (case client_send_file actual_window file_data (tl evs) of
             (tr2, Raised e) \<Rightarrow> (tr @ [Print []] @ tr2, Raised e)
           | (tr2, Waiting) \<Rightarrow> (tr @ [Print []] @ tr2, Waiting)
           | (tr2, Returned (total_bytes, rest)) \<Rightarrow>
               (case client_teardown rest of
                  (tr3, Raised e) \<Rightarrow> (tr @ [Print []] @ tr2 @ tr3, Raised e)
                | (tr3, Waiting) \<Rightarrow> (tr @ [Print []] @ tr2 @ tr3, Waiting)
                | (tr3, Returned u) \<Rightarrow>
                    (tr @ [Print []] @ tr2 @ tr3 @ [Print ''Connection closes''], Returned ()))))"

subsection \<open>Vocabulary of the properties\<close>

text \<open>
  The states the sender loop passes through, in order: the state at the head of each pass and
  the state after its send phase (the one in which \<open>recvfrom\<close> is called).
\<close>

fun loop_states :: "int \<Rightarrow> int \<Rightarrow> bytes list \<Rightarrow> sender \<Rightarrow> recv_event list \<Rightarrow> sender list" where
  "loop_states window_size total_chunks packets st [] =
     (if base st \<le> total_chunks then
        (case send_window window_size total_chunks packets st of
           Inl _ \<Rightarrow> [st]
         | Inr st1 \<Rightarrow> [st, st1])
      else [st])"
| "loop_states window_size total_chunks packets st (ev # evs) =
     (if base st \<le> total_chunks then
        (case send_window window_size total_chunks packets st of
           Inl _ \<Rightarrow> [st]
         | Inr st1 \<Rightarrow>
             st # st1 #
             (case await_ack packets st1 ev of
                Inl _ \<Rightarrow> []
              | Inr st2 \<Rightarrow> loop_states window_size total_chunks packets st2 evs))
      else [st])"

text \<open>A received ACK acknowledges a packet that was sent: its number is below \<open>next_seq\<close>.\<close>

definition ack_was_sent :: "sender \<Rightarrow> recv_event \<Rightarrow> bool" where
  "ack_was_sent st ev =
     (case ev of
        Timeout \<Rightarrow> True
      | Datagram d \<Rightarrow>
          (case extract_packet (take 1024 d) of
             Inl _ \<Rightarrow> True
           | Inr ((seq, ack, flags, recv_window), _) \<Rightarrow>
               flags AND ack_flag = 0 \<or> ack < next_seq st))"

fun acks_were_sent :: "int \<Rightarrow> int \<Rightarrow> bytes list \<Rightarrow> sender \<Rightarrow> recv_event list \<Rightarrow> bool" where
  "acks_were_sent window_size total_chunks packets st [] = True"
| "acks_were_sent window_size total_chunks packets st (ev # evs) =
     (if base st \<le> total_chunks then
        (case send_window window_size total_chunks packets st of
           Inl _ \<Rightarrow> True
         | Inr st1 \<Rightarrow>
             ack_was_sent st1 ev \<and>
             (case await_ack packets st1 ev of
                Inl _ \<Rightarrow> True
              | Inr st2 \<Rightarrow> acks_were_sent window_size total_chunks packets st2 evs))
      else True)"

text \<open>The header fields of a datagram, as the receiver reads them (\<open>None\<close> when it cannot).\<close>

definition header_of :: "bytes \<Rightarrow> (int \<times> int \<times> int \<times> int) option" where
  "header_of datagram =
     (case extract_packet (take 2048 datagram) of Inl _ \<Rightarrow> None | Inr (header, _) \<Rightarrow> Some header)"

text \<open>A datagram the discard mechanism is aimed at: no FIN flag, sequence number \<open>k\<close>.\<close>

definition discard_target :: "int \<Rightarrow> bytes \<Rightarrow> bool" where
  "discard_target k datagram =
     (case header_of datagram of
        None \<Rightarrow> False
      | Some (seq, ack, flags, rwnd) \<Rightarrow> flags AND fin_flag = 0 \<and> seq = k)"

text \<open>
  The outcome of a receiver run with the \<open>discard_once\<close> flag put aside, to compare a run
  that has a discard target with one that has none.
\<close>

definition forget_flag :: "receiver \<times> unit status \<Rightarrow> receiver \<times> unit status" where
  "forget_flag r = (case r of (st, res) \<Rightarrow> (st\<lparr>discard_once := False\<rparr>, res))"

section \<open>Header codec: properties\<close>

lemma un_be16_be16: "u16_ok v \<Longrightarrow> un_be16 (word_of_int (v div 256)) (word_of_int (v mod 256)) = v"
proof -
  assume ok: "u16_ok v"
  then have hi: "0 \<le> v div 256" "v div 256 < 256"
    by (auto simp: u16_ok_def)
  have "uint (word_of_int (v div 256) :: byte) = v div 256"
    using hi by (simp add: uint_word_of_int)
  moreover have "uint (word_of_int (v mod 256) :: byte) = v mod 256"
    by (simp add: uint_word_of_int)
  ultimately show ?thesis
    by (simp add: un_be16_def)
qed

lemma parse_create_header:
  "u16_ok s \<Longrightarrow> u16_ok a \<Longrightarrow> u16_ok f \<Longrightarrow> u16_ok w \<Longrightarrow>
   create_header s a f w = Inr (be16 s @ be16 a @ be16 f @ be16 w) \<and>
   parse_header (be16 s @ be16 a @ be16 f @ be16 w) = Inr (s, a, f, w)"
  by (simp add: create_header_def struct_pack_HHHH_def parse_header_def
      struct_unpack_HHHH_def be16_def un_be16_be16)

text \<open>
  Claim C4. For fields \<open>seq\<close>, \<open>ack\<close>, \<open>flags\<close>, \<open>window\<close> each within \<open>0..65535\<close>,
  \<open>parse_header (create_header ...)\<close> returns exactly the four fields, and for every payload
  \<open>P\<close> of at most 992 bytes \<open>extract_packet (create_packet ... P)\<close> returns the fields and \<open>P\<close>.
  Neither call raises.
\<close>

theorem header_packet_roundtrip:
  assumes "0 \<le> seq \<and> seq \<le> 65535" and "0 \<le> ack \<and> ack \<le> 65535"
    and "0 \<le> flags \<and> flags \<le> 65535" and "0 \<le> window \<and> window \<le> 65535"
    and "length P \<le> 992"
  shows "(case create_header seq ack flags window of Inl e \<Rightarrow> Inl e | Inr h \<Rightarrow> parse_header h)
           = Inr (seq, ack, flags, window)
       \<and> (case create_packet seq ack flags window P of Inl e \<Rightarrow> Inl e | Inr p \<Rightarrow> extract_packet p)
           = Inr ((seq, ack, flags, window), P)"
proof -
  have ok: "u16_ok seq" "u16_ok ack" "u16_ok flags" "u16_ok window"
    using assms by (simp_all add: u16_ok_def)
  note rt = parse_create_header [OF ok]
  have len: "length (be16 seq @ be16 ack @ be16 flags @ be16 window) = 8"
    by (simp add: be16_def)
  show ?thesis
    using rt len by (simp add: create_packet_def extract_packet_def header_size_def)
qed

theorem header_packet_roundtrip_witness:
  "(case create_header 1 0 4 15 of Inl e \<Rightarrow> Inl e | Inr h \<Rightarrow> parse_header h) = Inr (1, 0, 4, 15)
   \<and> (case create_packet 1 0 4 15 [7, 8, 9] of Inl e \<Rightarrow> Inl e | Inr p \<Rightarrow> extract_packet p)
       = Inr ((1, 0, 4, 15), [7, 8, 9])"
  using header_packet_roundtrip [of 1 0 4 15 "[7, 8, 9]"] by simp

text \<open>
  Claim C9 says \<open>create_header\<close> is total on the non-negative integers and masks each field
  to its low 16 bits. It does not: \<open>struct.pack\<close> raises on 65536, whereas the masked call
  returns eight zero bytes.
\<close>

theorem create_header_masking_counterexample:
  "create_header 65536 0 0 0 = Inl StructError
   \<and> create_header (65536 mod 2 ^ 16) (0 mod 2 ^ 16) (0 mod 2 ^ 16) (0 mod 2 ^ 16)
       = Inr [0, 0, 0, 0, 0, 0, 0, 0]"
  by (simp add: create_header_def struct_pack_HHHH_def u16_ok_def be16_def)

text \<open>
  Claim C9, amended. When every field lies within \<open>0..65535\<close>, \<open>create_header\<close> returns the
  8 bytes of the four fields in network byte order (high byte first); when some field lies
  outside, it raises \<open>struct.error\<close>. No field is masked.
\<close>

theorem create_header_range:
  "((0 \<le> s \<and> s \<le> 65535) \<and> (0 \<le> a \<and> a \<le> 65535) \<and> (0 \<le> f \<and> f \<le> 65535) \<and> (0 \<le> w \<and> w \<le> 65535)
      \<longrightarrow> create_header s a f w =
            Inr [word_of_int (s div 256), word_of_int (s mod 256),
                 word_of_int (a div 256), word_of_int (a mod 256),
                 word_of_int (f div 256), word_of_int (f mod 256),
                 word_of_int (w div 256), word_of_int (w mod 256)])
   \<and> (\<not> ((0 \<le> s \<and> s \<le> 65535) \<and> (0 \<le> a \<and> a \<le> 65535) \<and> (0 \<le> f \<and> f \<le> 65535) \<and> (0 \<le> w \<and> w \<le> 65535))
      \<longrightarrow> create_header s a f w = Inl StructError)"
  by (simp add: create_header_def struct_pack_HHHH_def u16_ok_def be16_def)

theorem create_header_range_witness:
  "create_header 258 0 2 15 = Inr [1, 2, 0, 0, 0, 2, 0, 15]
   \<and> create_header 65536 0 0 0 = Inl StructError
   \<and> create_header (- 1) 0 0 0 = Inl StructError"
  using create_header_range [of 258 0 2 15] create_header_range [of 65536 0 0 0]
    create_header_range [of "- 1" 0 0 0]
  by simp

section \<open>Receiver: properties\<close>

lemmas eval_codec = extract_packet_def parse_header_def struct_unpack_HHHH_def un_be16_def
  header_size_def create_packet_def create_header_def struct_pack_HHHH_def u16_ok_def be16_def
  fin_flag_def ack_flag_def syn_flag_def

lemma fin_ack_packet: "create_packet 0 0 (fin_flag OR ack_flag) 0 [] = Inr [0, 0, 0, 0, 0, 10, 0, 0]"
  by (simp add: create_packet_def create_header_def struct_pack_HHHH_def u16_ok_def be16_def
      fin_flag_def ack_flag_def)

lemma step_out_of_order:
  assumes "header_of d = Some (seq, ack, flags, rwnd)" and "flags AND fin_flag = 0"
    and "seq \<noteq> expected_seq st"
  shows "sink (snd (server_step discard_seq st d)) = sink st
       \<and> filter is_send (out (snd (server_step discard_seq st d))) = filter is_send (out st)
       \<and> expected_seq (snd (server_step discard_seq st d)) = expected_seq st
       \<and> total_received (snd (server_step discard_seq st d)) = total_received st"
  using assms
  by (auto simp: server_step_def header_of_def split: sum.splits prod.splits)

lemma step_discard:
  assumes "k \<noteq> 0" and "discard_once st" and "discard_target k p"
  shows "server_step (Some k) st p = (Discard, st\<lparr>discard_once := False\<rparr>)"
  using assms
  by (auto simp: server_step_def discard_target_def header_of_def truthy_def
      split: sum.splits prod.splits option.splits)

lemma step_flag_cleared:
  assumes "\<not> discard_once st"
  shows "server_step discard_seq st d = server_step None st d"
  using assms
  by (auto simp: server_step_def truthy_def split: sum.splits prod.splits)

lemma step_none_not_discard: "fst (server_step None st d) \<noteq> Discard"
  by (auto simp: server_step_def truthy_def Let_def split: sum.splits prod.splits)

lemma step_none_keeps_flag: "discard_once (snd (server_step None st d)) = discard_once st"
  by (auto simp: server_step_def truthy_def Let_def split: sum.splits prod.splits)

lemma step_before_target:
  assumes "discard_once st" and "\<not> discard_target k q"
  shows "fst (server_step (Some k) st q) = fst (server_step None (st\<lparr>discard_once := False\<rparr>) q)"
    and "(snd (server_step (Some k) st q))\<lparr>discard_once := False\<rparr>
           = snd (server_step None (st\<lparr>discard_once := False\<rparr>) q)"
    and "discard_once (snd (server_step (Some k) st q))"
  using assms
  by (auto simp: server_step_def discard_target_def header_of_def truthy_def Let_def
      split: sum.splits prod.splits option.splits)


lemma loop_flag_cleared:
  "\<not> discard_once st \<Longrightarrow> server_loop discard_seq st ds = server_loop None st ds"
proof (induction ds arbitrary: st)
  case Nil
  show ?case by simp
next
  case (Cons d ds)
  have same: "server_step discard_seq st d = server_step None st d"
    using Cons.prems by (rule step_flag_cleared)
  have "\<not> discard_once (snd (server_step None st d))"
    using Cons.prems by (simp add: step_none_keeps_flag)
  then have "server_loop discard_seq (snd (server_step None st d)) ds
             = server_loop None (snd (server_step None st d)) ds"
    by (rule Cons.IH)
  then show ?case
    using same by (simp add: case_prod_beta)
qed

lemma loop_none_flag:
  "\<not> discard_once st \<Longrightarrow> \<not> discard_once (fst (server_loop None st ds))"
proof (induction ds arbitrary: st)
  case Nil
  then show ?case by simp
next
  case (Cons d ds)
  have "\<not> discard_once (snd (server_step None st d))"
    using Cons.prems by (simp add: step_none_keeps_flag)
  then show ?case
    using Cons.IH [of "snd (server_step None st d)"] by (simp add: case_prod_beta)
qed

lemma loop_drops_first_target:
  assumes "k \<noteq> 0" and "discard_target k p"
  shows "discard_once st \<Longrightarrow> \<forall>q \<in> set pre. \<not> discard_target k q \<Longrightarrow>
         forget_flag (server_loop (Some k) st (pre @ p # post))
           = server_loop None (st\<lparr>discard_once := False\<rparr>) (pre @ post)"
proof (induction pre arbitrary: st)
  case Nil
  let ?s = "st\<lparr>discard_once := False\<rparr>"
  have "server_loop (Some k) st (p # post) = server_loop (Some k) ?s post"
    using assms Nil.prems(1) by (simp add: step_discard)
  also have "\<dots> = server_loop None ?s post"
    by (rule loop_flag_cleared) simp
  finally have eq: "server_loop (Some k) st (p # post) = server_loop None ?s post" .
  have "\<not> discard_once (fst (server_loop None ?s post))"
    by (rule loop_none_flag) simp
  then have "forget_flag (server_loop None ?s post) = server_loop None ?s post"
    by (cases "server_loop None ?s post") (simp add: forget_flag_def)
  then show ?case
    using eq by simp
next
  case (Cons q pre)
  let ?s = "st\<lparr>discard_once := False\<rparr>"
  have nq: "\<not> discard_target k q" and rest: "\<forall>q \<in> set pre. \<not> discard_target k q"
    using Cons.prems(2) by simp_all
  note st = step_before_target [OF Cons.prems(1) nq]
  obtain br s1 where s1: "server_step (Some k) st q = (br, s1)"
    by (cases "server_step (Some k) st q")
  then have n1: "server_step None ?s q = (br, s1\<lparr>discard_once := False\<rparr>)"
    using st(1,2) by (simp add: prod_eq_iff)
  have f1: "discard_once s1"
    using st(3) s1 by simp
  show ?case
  proof (cases "continues br")
    case True
    then show ?thesis
      using s1 n1 Cons.IH [OF f1 rest] by simp
  next
    case False
    then show ?thesis
      using s1 n1 by (simp add: forget_flag_def)
  qed
qed

lemma receive_files_forget:
  "forget_flag (server_receive_files discard_seq ds)
     = (case forget_flag (server_loop discard_seq (receiver_init discard_seq) ds) of
          (st, Returned u) \<Rightarrow>
            (st\<lparr>out := out st @ [Print ''The throughput is'', Print ''Connection Closes'']\<rparr>,
             Returned u)
        | r \<Rightarrow> r)"
proof (cases "server_loop discard_seq (receiver_init discard_seq) ds")
  case (Pair st res)
  then show ?thesis
    by (cases res) (simp_all add: server_receive_files_def forget_flag_def)
qed


lemma receive_files_drops_first_target:
  assumes k: "k \<noteq> 0" and p: "discard_target k p"
    and pre: "\<forall>q \<in> set pre. \<not> discard_target k q"
  shows "forget_flag (server_receive_files (Some k) (pre @ p # post))
           = server_receive_files None (pre @ post)"
proof -
  have init: "(receiver_init (Some k))\<lparr>discard_once := False\<rparr> = receiver_init None"
    by (simp add: receiver_init_def truthy_def)
  have flag: "discard_once (receiver_init (Some k))"
    using k by (simp add: receiver_init_def truthy_def)
  have eq: "forget_flag (server_loop (Some k) (receiver_init (Some k)) (pre @ p # post))
          = server_loop None (receiver_init None) (pre @ post)"
    using loop_drops_first_target [OF k p flag pre, of post] by (simp only: init)
  show ?thesis
    by (subst receive_files_forget) (simp only: eq server_receive_files_def)
qed

lemma first_out_of_order_step:
  assumes "header_of p = Some (seq, ack, flags, rwnd)" and "flags AND fin_flag = 0" and "seq \<noteq> 1"
    and "\<not> timestamp_set st" and "expected_seq st = 1"
    and "\<not> (truthy discard_seq \<and> Some seq = discard_seq \<and> discard_once st)"
  shows "server_step discard_seq st p
           = (Failed UnboundLocalError, st\<lparr>out := out st @ [Print ''Error:'']\<rparr>)"
  using assms
  by (auto simp: server_step_def header_of_def split: sum.splits prod.splits)

text \<open>
  Claim C2. A packet without the FIN flag whose sequence number differs from \<open>expected_seq\<close>
  leaves the sink, the datagrams sent, \<open>expected_seq\<close> and the byte count as they were. This
  holds in every receiver state and for every \<open>discard_seq\<close>, so also when the packet is not
  the discard target.
\<close>

theorem out_of_order_packet_ignored:
  assumes "header_of d = Some (seq, ack, flags, rwnd)" and "flags AND fin_flag = 0"
    and "seq \<noteq> expected_seq st"
  shows "sink (snd (server_step discard_seq st d)) = sink st
       \<and> filter is_send (out (snd (server_step discard_seq st d))) = filter is_send (out st)
       \<and> expected_seq (snd (server_step discard_seq st d)) = expected_seq st
       \<and> total_received (snd (server_step discard_seq st d)) = total_received st"
  using assms by (rule step_out_of_order)

theorem out_of_order_packet_ignored_witness:
  "header_of [0, 5, 0, 0, 0, 0, 0, 0, 65] = Some (5, 0, 0, 0)
   \<and> server_step None (receiver_init None) [0, 5, 0, 0, 0, 0, 0, 0, 65]
       = (Failed UnboundLocalError, (receiver_init None)\<lparr>out := [Print ''Error:'']\<rparr>)
   \<and> sink (snd (server_step None (receiver_init None) [0, 5, 0, 0, 0, 0, 0, 0, 65])) = []
   \<and> filter is_send (out (snd (server_step None (receiver_init None) [0, 5, 0, 0, 0, 0, 0, 0, 65]))) = []
   \<and> expected_seq (snd (server_step None (receiver_init None) [0, 5, 0, 0, 0, 0, 0, 0, 65])) = 1
   \<and> total_received (snd (server_step None (receiver_init None) [0, 5, 0, 0, 0, 0, 0, 0, 65])) = 0"
proof -
  have h: "header_of [0, 5, 0, 0, 0, 0, 0, 0, 65] = Some (5, 0, 0, 0)"
    by (simp add: header_of_def eval_codec)
  have f: "(0::int) AND fin_flag = 0"
    by (simp add: fin_flag_def)
  have s: "(5::int) \<noteq> expected_seq (receiver_init None)"
    by (simp add: receiver_init_def)
  have v: "server_step None (receiver_init None) [0, 5, 0, 0, 0, 0, 0, 0, 65]
       = (Failed UnboundLocalError, (receiver_init None)\<lparr>out := [Print ''Error:'']\<rparr>)"
    by (simp add: server_step_def receiver_init_def truthy_def eval_codec)
  show ?thesis
    using out_of_order_packet_ignored [OF h f s, of None] h v
    by (simp add: receiver_init_def)
qed

text \<open>
  Claim C6 says that with \<open>discard_seq = k\<close> the first packet numbered \<open>k\<close> is dropped and
  every later packet numbered \<open>k\<close> goes through the ordinary in-order and out-of-order rules.
  The flag by itself behaves so (\<open>step_discard\<close>, \<open>step_flag_cleared\<close> and
  \<open>receive_files_drops_first_target\<close> above), but the run does not get as far as the later
  copy. With \<open>k = 1\<close> the packet after the dropped one is out of order while \<open>timestamp\<close> has
  never been assigned, and the loop ends there. Below, a receiver started with \<open>discard_seq = 1\<close>
  gets the three packets of a window, the same three again after the sender's timeout, and the
  FIN: it returns at the second datagram, with nothing written and nothing sent, whatever
  follows; the copy of packet 1 that was sent again is never read. Without a discard target the
  same file arrives whole.
\<close>

theorem discard_first_packet_aborts_transfer:
  "server_receive_files (Some 1)
     [[0, 1, 0, 0, 0, 0, 0, 0, 65], [0, 2, 0, 0, 0, 0, 0, 0, 66], [0, 3, 0, 0, 0, 0, 0, 0, 67],
      [0, 1, 0, 0, 0, 0, 0, 0, 65], [0, 2, 0, 0, 0, 0, 0, 0, 66], [0, 3, 0, 0, 0, 0, 0, 0, 67],
      [0, 0, 0, 0, 0, 8, 0, 0]]
     = (\<lparr>timestamp_set = False,
         out = [Print ''Error:'', Print ''The throughput is'', Print ''Connection Closes''],
         expected_seq = 1, total_received = 0, discard_once = False, sink = []\<rparr>, Returned ())
   \<and> server_receive_files (Some 1)
        ([0, 1, 0, 0, 0, 0, 0, 0, 65] # [0, 2, 0, 0, 0, 0, 0, 0, 66] # rest)
     = (\<lparr>timestamp_set = False,
         out = [Print ''Error:'', Print ''The throughput is'', Print ''Connection Closes''],
         expected_seq = 1, total_received = 0, discard_once = False, sink = []\<rparr>, Returned ())
   \<and> sink (fst (server_receive_files None
        [[0, 1, 0, 0, 0, 0, 0, 0, 65], [0, 2, 0, 0, 0, 0, 0, 0, 66], [0, 3, 0, 0, 0, 0, 0, 0, 67],
         [0, 0, 0, 0, 0, 8, 0, 0]]))
     = [65, 66, 67]"
  by (simp add: server_receive_files_def server_step_def receiver_init_def truthy_def eval_codec)

text \<open>
  Claim C10. When the first packet that is neither a FIN nor discarded carries a sequence number
  other than 1, the out-of-order branch reads \<open>timestamp\<close> before any assignment, the handler
  catches the error and breaks: the function returns with an empty sink, nothing sent (no ACK,
  no FIN-ACK) and \<open>expected_seq\<close> still 1. The packet comes first, or second after the one
  packet the discard mechanism dropped.
\<close>

theorem first_packet_out_of_order_ends_loop:
  assumes "header_of p = Some (seq, ack, flags, rwnd)" and "flags AND fin_flag = 0" and "seq \<noteq> 1"
  shows "(\<not> (truthy discard_seq \<and> discard_seq = Some seq)
            \<longrightarrow> server_receive_files discard_seq (p # rest)
                  = (\<lparr>timestamp_set = False,
                      out = [Print ''Error:'', Print ''The throughput is'', Print ''Connection Closes''],
                      expected_seq = 1, total_received = 0,
                      discard_once = truthy discard_seq, sink = []\<rparr>, Returned ()))
       \<and> (k \<noteq> 0 \<and> discard_target k q
            \<longrightarrow> server_receive_files (Some k) (q # p # rest)
                  = (\<lparr>timestamp_set = False,
                      out = [Print ''Error:'', Print ''The throughput is'', Print ''Connection Closes''],
                      expected_seq = 1, total_received = 0,
                      discard_once = False, sink = []\<rparr>, Returned ()))"
proof -
  have a: "server_step discard_seq (receiver_init discard_seq) p
             = (Failed UnboundLocalError,
                (receiver_init discard_seq)\<lparr>out := out (receiver_init discard_seq) @ [Print ''Error:'']\<rparr>)"
    if "\<not> (truthy discard_seq \<and> discard_seq = Some seq)"
    using that by (intro first_out_of_order_step [OF assms]) (auto simp: receiver_init_def)
  have b1: "server_step (Some k) (receiver_init (Some k)) q
              = (Discard, (receiver_init (Some k))\<lparr>discard_once := False\<rparr>)"
    if "k \<noteq> 0" and "discard_target k q"
    using that by (intro step_discard) (simp_all add: receiver_init_def truthy_def)
  have b2: "server_step (Some k) ((receiver_init (Some k))\<lparr>discard_once := False\<rparr>) p
              = (Failed UnboundLocalError,
                 (receiver_init (Some k))\<lparr>discard_once := False, out := [Print ''Error:'']\<rparr>)"
    using first_out_of_order_step [OF assms, of "(receiver_init (Some k))\<lparr>discard_once := False\<rparr>" "Some k"]
    by (simp add: receiver_init_def)
  show ?thesis
    using a b1 b2 by (simp add: server_receive_files_def) (simp add: receiver_init_def truthy_def)
qed

theorem first_packet_out_of_order_ends_loop_witness:
  "server_receive_files None [[0, 2, 0, 0, 0, 0, 0, 0, 66], [0, 1, 0, 0, 0, 0, 0, 0, 65]]
     = (\<lparr>timestamp_set = False,
         out = [Print ''Error:'', Print ''The throughput is'', Print ''Connection Closes''],
         expected_seq = 1, total_received = 0, discard_once = False, sink = []\<rparr>, Returned ())
   \<and> server_receive_files (Some 3)
        [[0, 3, 0, 0, 0, 0, 0, 0, 67], [0, 2, 0, 0, 0, 0, 0, 0, 66], [0, 1, 0, 0, 0, 0, 0, 0, 65]]
     = (\<lparr>timestamp_set = False,
         out = [Print ''Error:'', Print ''The throughput is'', Print ''Connection Closes''],
         expected_seq = 1, total_received = 0, discard_once = False, sink = []\<rparr>, Returned ())"
proof -
  have h: "header_of [0, 2, 0, 0, 0, 0, 0, 0, 66] = Some (2, 0, 0, 0)"
    by (simp add: header_of_def eval_codec)
  have f: "(0::int) AND fin_flag = 0"
    by (simp add: fin_flag_def)
  have s: "(2::int) \<noteq> 1"
    by simp
  have t: "discard_target 3 [0, 3, 0, 0, 0, 0, 0, 0, 67]"
    by (simp add: discard_target_def header_of_def eval_codec)
  show ?thesis
    using first_packet_out_of_order_ends_loop [OF h f s, of None "[[0, 1, 0, 0, 0, 0, 0, 0, 65]]" 3
        "[0, 3, 0, 0, 0, 0, 0, 0, 67]"] t
    by (simp add: truthy_def)
qed

section \<open>Sender: properties\<close>

lemma send_window_base:
  "send_window w n pk st = Inr st1 \<Longrightarrow> base st1 = base st \<and> next_seq st \<le> next_seq st1"
proof (induction w n pk st rule: send_window.induct)
  case (1 w n pk st)
  show ?case
  proof (cases "next_seq st < base st + w \<and> next_seq st \<le> n")
    case True
    then obtain packet where p: "py_index pk (next_seq st - 1) = Inr packet"
      and r: "send_window w n pk
                (st\<lparr>timestamp_set := True,
                    out := out st @ [SendTo packet, Print ''packet is sent''],
                    next_seq := next_seq st + 1\<rparr>) = Inr st1"
      using "1.prems" by (subst (asm) send_window.simps) (auto split: sum.splits)
    show ?thesis
      using "1.IH" [OF True p r] by simp
  next
    case False
    then have "st1 = st"
      using "1.prems" by (subst (asm) send_window.simps) auto
    then show ?thesis
      by simp
  qed
qed

lemma send_window_bound:
  "send_window w n pk st = Inr st1 \<Longrightarrow> next_seq st \<le> base st + w \<Longrightarrow> next_seq st1 \<le> base st1 + w"
proof (induction w n pk st rule: send_window.induct)
  case (1 w n pk st)
  show ?case
  proof (cases "next_seq st < base st + w \<and> next_seq st \<le> n")
    case True
    then obtain packet where p: "py_index pk (next_seq st - 1) = Inr packet"
      and r: "send_window w n pk
                (st\<lparr>timestamp_set := True,
                    out := out st @ [SendTo packet, Print ''packet is sent''],
                    next_seq := next_seq st + 1\<rparr>) = Inr st1"
      using "1.prems"(1) by (subst (asm) send_window.simps) (auto split: sum.splits)
    show ?thesis
      using "1.IH" [OF True p r] True by simp
  next
    case False
    then have "st1 = st"
      using "1.prems"(1) by (subst (asm) send_window.simps) auto
    then show ?thesis
      using "1.prems"(2) by simp
  qed
qed

lemma retransmit_keeps:
  "retransmit pk is st = Inr st1 \<Longrightarrow>
   base st1 = base st \<and> next_seq st1 = next_seq st \<and> timestamp_set st1 = timestamp_set st"
proof (induction "is" arbitrary: st)
  case Nil
  then show ?case by simp
next
  case (Cons i "is")
  then show ?case
    by (auto split: sum.splits)
qed

text \<open>
  What an ACK does once \<open>timestamp\<close> is bound: \<open>base\<close> becomes \<open>ack + 1\<close> when \<open>ack \<ge> base\<close>
  and stays otherwise; \<open>next_seq\<close> is not touched.
\<close>

lemma await_ack_cumulative:
  assumes "extract_packet (take 1024 d) = Inr ((seq, ack, flags, rwnd), payload)"
    and "flags AND ack_flag \<noteq> 0" and "timestamp_set st"
  shows "await_ack pk st (Datagram d)
           = Inr (st\<lparr>out := out st @ [Print ''ACK is received''],
                     base := (if ack \<ge> base st then ack + 1 else base st)\<rparr>)"
  using assms by (simp add: await_ack_def)

lemma await_ack_inv:
  assumes "await_ack pk st ev = Inr st2" and "ack_was_sent st ev" and "base st \<le> next_seq st"
  shows "base st \<le> base st2 \<and> base st2 \<le> next_seq st2 \<and> next_seq st2 = next_seq st"
proof (cases ev)
  case Timeout
  then have "retransmit pk [base st .. next_seq st - 1] (st\<lparr>out := out st @ [Print ''RTO occured'']\<rparr>)
               = Inr st2"
    using assms(1) by (simp add: await_ack_def split: if_splits)
  from retransmit_keeps [OF this] show ?thesis
    using assms(3) by simp
next
  case (Datagram d)
  then show ?thesis
    using assms
    by (auto simp: await_ack_def ack_was_sent_def Let_def split: sum.splits prod.splits if_splits)
qed

lemma loop_states_inv:
  assumes w: "0 \<le> w"
  shows "acks_were_sent w n pk st evs \<Longrightarrow> base st \<le> next_seq st \<Longrightarrow> next_seq st \<le> base st + w \<Longrightarrow>
         (\<forall>s \<in> set (loop_states w n pk st evs).
             base st \<le> base s \<and> base s \<le> next_seq s \<and> next_seq s \<le> base s + w)
         \<and> sorted (map base (loop_states w n pk st evs))"
proof (induction evs arbitrary: st)
  case Nil
  show ?case
  proof (cases "send_window w n pk st")
    case (Inl a)
    then show ?thesis
      using Nil.prems by simp
  next
    case (Inr st1)
    from send_window_base [OF Inr] send_window_bound [OF Inr Nil.prems(3)]
    show ?thesis
      using Nil.prems Inr by simp
  qed
next
  case (Cons ev evs)
  show ?case
  proof (cases "base st \<le> n")
    case False
    then show ?thesis
      using Cons.prems by simp
  next
    case go: True
    show ?thesis
    proof (cases "send_window w n pk st")
      case (Inl a)
      then show ?thesis
        using Cons.prems go by simp
    next
      case (Inr st1)
      note b1 = send_window_base [OF Inr]
      note n1 = send_window_bound [OF Inr Cons.prems(3)]
      have i1: "base st1 \<le> next_seq st1"
        using b1 Cons.prems(2) by simp
      have sent: "ack_was_sent st1 ev"
        using Cons.prems(1) go Inr by simp
      show ?thesis
      proof (cases "await_ack pk st1 ev")
        case (Inl a)
        then show ?thesis
          using Cons.prems go Inr b1 n1 by simp
      next
        case st2: (Inr st2)
        note a2 = await_ack_inv [OF st2 sent i1]
        have rest: "acks_were_sent w n pk st2 evs"
          using Cons.prems(1) go Inr st2 by simp
        have n2: "next_seq st2 \<le> base st2 + w"
          using a2 n1 by simp
        have ih: "(\<forall>s \<in> set (loop_states w n pk st2 evs).
                      base st2 \<le> base s \<and> base s \<le> next_seq s \<and> next_seq s \<le> base s + w)
                  \<and> sorted (map base (loop_states w n pk st2 evs))"
          using Cons.IH [OF rest] a2 n2 by simp
        have ls: "loop_states w n pk st (ev # evs) = st # st1 # loop_states w n pk st2 evs"
          using go Inr st2 by simp
        have le: "\<forall>s \<in> set (loop_states w n pk st2 evs). base st1 \<le> base s"
          using ih a2 by fastforce
        show ?thesis
          unfolding ls using ih le b1 n1 i1 Cons.prems(2,3) by auto
      qed
    qed
  qed
qed

text \<open>
  Claim C3 says that \<open>base \<le> next_seq \<le> base + window_size\<close> holds at every pass of the loop
  while packets remain, when every ACK number received is below \<open>next_seq\<close>. With a window of
  \<open>-1\<close>, which \<open>--window -1\<close> gives and nothing in the program rejects, no ACK is received at
  all, one packet remains (\<open>base \<le> total_chunks\<close>), and the first pass has
  \<open>next_seq = 1 > 0 = base + window_size\<close> before and after its send phase.
\<close>

theorem window_invariant_negative_window_counterexample:
  "acks_were_sent (- 1) 1 [[0, 1, 0, 0, 0, 0, 0, 0, 65]] sender_init []
   \<and> loop_states (- 1) 1 [[0, 1, 0, 0, 0, 0, 0, 0, 65]] sender_init [] = [sender_init, sender_init]
   \<and> base sender_init \<le> 1
   \<and> \<not> (next_seq sender_init \<le> base sender_init + (- 1))"
  by (simp add: send_window.simps sender_init_def)

text \<open>
  Claim C3, amended. For a window size that is not negative and a run in which every ACK number
  received is below \<open>next_seq\<close>, \<open>base \<le> next_seq \<le> base + window_size\<close> holds at the head of
  every pass of the loop and after its send phase, and \<open>base\<close> never decreases from one of
  these states to the next.
\<close>

theorem window_invariant:
  assumes "0 \<le> window_size"
    and "acks_were_sent window_size total_chunks packets sender_init evs"
  shows "(\<forall>s \<in> set (loop_states window_size total_chunks packets sender_init evs).
            base s \<le> next_seq s \<and> next_seq s \<le> base s + window_size)
       \<and> sorted (map base (loop_states window_size total_chunks packets sender_init evs))"
proof -
  have "base sender_init \<le> next_seq sender_init"
    and "next_seq sender_init \<le> base sender_init + window_size"
    using assms(1) by (simp_all add: sender_init_def)
  from loop_states_inv [OF assms(1) assms(2) this] show ?thesis
    by blast
qed

theorem window_invariant_witness:
  "acks_were_sent 2 3
      [[0, 1, 0, 0, 0, 0, 0, 0, 65], [0, 2, 0, 0, 0, 0, 0, 0, 66], [0, 3, 0, 0, 0, 0, 0, 0, 67]]
      sender_init [Datagram [0, 0, 0, 1, 0, 2, 0, 0], Timeout, Datagram [0, 0, 0, 3, 0, 2, 0, 0]]
   \<and> map (\<lambda>s. (base s, next_seq s)) (loop_states 2 3
      [[0, 1, 0, 0, 0, 0, 0, 0, 65], [0, 2, 0, 0, 0, 0, 0, 0, 66], [0, 3, 0, 0, 0, 0, 0, 0, 67]]
      sender_init [Datagram [0, 0, 0, 1, 0, 2, 0, 0], Timeout, Datagram [0, 0, 0, 3, 0, 2, 0, 0]])
     = [(1, 1), (1, 3), (2, 3), (2, 4), (2, 4), (2, 4), (4, 4)]
   \<and> list_all (\<lambda>s. base s \<le> next_seq s \<and> next_seq s \<le> base s + 2) (loop_states 2 3
      [[0, 1, 0, 0, 0, 0, 0, 0, 65], [0, 2, 0, 0, 0, 0, 0, 0, 66], [0, 3, 0, 0, 0, 0, 0, 0, 67]]
      sender_init [Datagram [0, 0, 0, 1, 0, 2, 0, 0], Timeout, Datagram [0, 0, 0, 3, 0, 2, 0, 0]])
   \<and> sorted (map base (loop_states 2 3
      [[0, 1, 0, 0, 0, 0, 0, 0, 65], [0, 2, 0, 0, 0, 0, 0, 0, 66], [0, 3, 0, 0, 0, 0, 0, 0, 67]]
      sender_init [Datagram [0, 0, 0, 1, 0, 2, 0, 0], Timeout, Datagram [0, 0, 0, 3, 0, 2, 0, 0]]))"
proof -
  have w: "(0::int) \<le> 2"
    by simp
  have a: "acks_were_sent 2 3
      [[0, 1, 0, 0, 0, 0, 0, 0, 65], [0, 2, 0, 0, 0, 0, 0, 0, 66], [0, 3, 0, 0, 0, 0, 0, 0, 67]]
      sender_init [Datagram [0, 0, 0, 1, 0, 2, 0, 0], Timeout, Datagram [0, 0, 0, 3, 0, 2, 0, 0]]"
    by (simp add: send_window.simps sender_init_def py_index_def await_ack_def ack_was_sent_def
        upto.simps eval_codec)
  have m: "map (\<lambda>s. (base s, next_seq s)) (loop_states 2 3
      [[0, 1, 0, 0, 0, 0, 0, 0, 65], [0, 2, 0, 0, 0, 0, 0, 0, 66], [0, 3, 0, 0, 0, 0, 0, 0, 67]]
      sender_init [Datagram [0, 0, 0, 1, 0, 2, 0, 0], Timeout, Datagram [0, 0, 0, 3, 0, 2, 0, 0]])
     = [(1, 1), (1, 3), (2, 3), (2, 4), (2, 4), (2, 4), (4, 4)]"
    by (simp add: send_window.simps sender_init_def py_index_def await_ack_def
        upto.simps eval_codec)
  show ?thesis
    using window_invariant [OF w a] a m by (simp add: list_all_iff)
qed

text \<open>
  Claim C1 says that an ACK whose number is at least \<open>base\<close> moves \<open>base\<close> to that number plus
  one. Once a packet has been sent it does (\<open>await_ack_cumulative\<close>). But the line that
  reports the ACK reads \<open>timestamp\<close>, which only the send loop assigns, before \<open>base\<close> is
  touched. With a window of 0 nothing is ever sent; an ACK for packet 1 then finds
  \<open>base = 1\<close>, and instead of \<open>base\<close> becoming 2 the function raises \<open>UnboundLocalError\<close>,
  \<open>base\<close> still 1.
\<close>

theorem ack_before_first_send_raises:
  "client_loop 0 1 [[0, 1, 0, 0, 0, 0, 0, 0, 65]] sender_init [Datagram [0, 0, 0, 1, 0, 2, 0, 0]]
     = (sender_init, Raised UnboundLocalError)
   \<and> base sender_init = 1
   \<and> client_send_file 0 [65] [Datagram [0, 0, 0, 1, 0, 2, 0, 0]]
     = ([Print ''Data Transfer:'', SetTimeout 400], Raised UnboundLocalError)"
  by (simp add: client_send_file_def max_data_def sender_init_def send_window.simps py_index_def
      await_ack_def timeout_ms_def eval_codec)

section \<open>Malformed datagrams: properties\<close>

lemma extract_packet_short:
  "length d < 8 \<Longrightarrow> extract_packet (take n d) = Inl StructError"
  by (simp add: extract_packet_def parse_header_def struct_unpack_HHHH_def header_size_def)

text \<open>
  Claim C8 says that a datagram shorter than 8 bytes is dropped and both loops go on with
  their state unchanged. They do not. In the receiver the \<open>struct.error\<close> reaches the loop's
  \<open>except Exception\<close> handler, which prints it and breaks: the function returns although data
  and a FIN follow. In the sender only \<open>socket.timeout\<close> is caught, so the error leaves
  \<open>client_send_file\<close> and the ACK behind the short datagram is never read.
\<close>

theorem malformed_datagram_counterexample:
  "server_receive_files None [[0, 1, 2], [0, 1, 0, 0, 0, 0, 0, 0, 65], [0, 0, 0, 0, 0, 8, 0, 0]]
     = (\<lparr>timestamp_set = False,
         out = [Print ''Error:'', Print ''The throughput is'', Print ''Connection Closes''],
         expected_seq = 1, total_received = 0, discard_once = False, sink = []\<rparr>, Returned ())
   \<and> client_send_file 3 [65] [Datagram [0, 1, 2], Datagram [0, 0, 0, 1, 0, 2, 0, 0]]
     = ([Print ''Data Transfer:'', SetTimeout 400, SendTo [0, 1, 0, 0, 0, 0, 0, 0, 65],
         Print ''packet is sent''], Raised StructError)"
  by (simp add: server_receive_files_def server_step_def receiver_init_def truthy_def eval_codec
      client_send_file_def max_data_def sender_init_def send_window.simps py_index_def await_ack_def
      timeout_ms_def)

text \<open>
  Claim C8, amended. A datagram shorter than 8 bytes ends the transfer on either side. The
  receiver's loop prints the error and breaks, so \<open>server_receive_files\<close> returns with the
  sink, \<open>expected_seq\<close>, the byte count and the discard flag as they were and nothing sent; as
  the first datagram this gives the initial state with the three lines printed. The sender's
  loop, having sent what the window allows, raises \<open>struct.error\<close> out of \<open>client_send_file\<close>.
\<close>

theorem malformed_datagram_ends_session:
  assumes "length d < 8"
  shows "server_loop discard_seq st (d # rest)
           = (st\<lparr>out := out st @ [Print ''Error:'']\<rparr>, Returned ())
       \<and> server_receive_files discard_seq (d # rest)
           = (\<lparr>timestamp_set = False,
               out = [Print ''Error:'', Print ''The throughput is'', Print ''Connection Closes''],
               expected_seq = 1, total_received = 0, discard_once = truthy discard_seq, sink = []\<rparr>,
              Returned ())
       \<and> (base snd_st \<le> total_chunks \<and> send_window window_size total_chunks packets snd_st = Inr st1
            \<longrightarrow> client_loop window_size total_chunks packets snd_st (Datagram d # evs)
                  = (st1, Raised StructError))"
proof -
  have x: "extract_packet (take n d) = Inl StructError" for n
    using assms by (rule extract_packet_short)
  have step: "server_step ds s d = (Failed StructError, s\<lparr>out := out s @ [Print ''Error:'']\<rparr>)" for ds s
    by (simp add: server_step_def x)
  have a: "server_loop discard_seq st (d # rest)
           = (st\<lparr>out := out st @ [Print ''Error:'']\<rparr>, Returned ())"
    by (simp add: step)
  have b: "server_receive_files discard_seq (d # rest)
           = (\<lparr>timestamp_set = False,
               out = [Print ''Error:'', Print ''The throughput is'', Print ''Connection Closes''],
               expected_seq = 1, total_received = 0, discard_once = truthy discard_seq, sink = []\<rparr>,
              Returned ())"
    by (simp add: server_receive_files_def step) (simp add: receiver_init_def)
  have c: "base snd_st \<le> total_chunks \<and> send_window window_size total_chunks packets snd_st = Inr st1
            \<longrightarrow> client_loop window_size total_chunks packets snd_st (Datagram d # evs)
                  = (st1, Raised StructError)"
    by (simp add: await_ack_def x)
  from a b c show ?thesis by blast
qed

theorem malformed_datagram_ends_session_witness:
  "server_loop None (receiver_init None) [[0, 1, 2], [0, 1, 0, 0, 0, 0, 0, 0, 65]]
     = ((receiver_init None)\<lparr>out := [Print ''Error:'']\<rparr>, Returned ())
   \<and> client_loop 3 1 [[0, 1, 0, 0, 0, 0, 0, 0, 65]] sender_init
        [Datagram [0, 1, 2], Datagram [0, 0, 0, 1, 0, 2, 0, 0]]
     = (sender_init\<lparr>timestamp_set := True,
          out := out sender_init @ [SendTo [0, 1, 0, 0, 0, 0, 0, 0, 65], Print ''packet is sent''],
          next_seq := 2\<rparr>, Raised StructError)"
proof -
  have l: "length [0, 1, 2 :: byte] < 8"
    by simp
  have b: "base sender_init \<le> 1"
    by (simp add: sender_init_def)
  have s: "send_window 3 1 [[0, 1, 0, 0, 0, 0, 0, 0, 65]] sender_init
             = Inr (sender_init\<lparr>timestamp_set := True,
                 out := out sender_init @ [SendTo [0, 1, 0, 0, 0, 0, 0, 0, 65], Print ''packet is sent''],
                 next_seq := 2\<rparr>)"
    by (simp add: send_window.simps sender_init_def py_index_def)
  show ?thesis
    using malformed_datagram_ends_session [OF l, of None "receiver_init None"
        "[[0, 1, 0, 0, 0, 0, 0, 0, 65]]" sender_init 1 3 "[[0, 1, 0, 0, 0, 0, 0, 0, 65]]" _
        "[Datagram [0, 0, 0, 1, 0, 2, 0, 0]]"] b s
    by (simp add: receiver_init_def)
qed

section \<open>Handshake: properties\<close>

lemma un_be16_range: "0 \<le> un_be16 hi lo \<and> un_be16 hi lo \<le> 65535"
proof -
  have "uint hi < 256" "uint lo < 256"
    using uint_bounded [of hi] uint_bounded [of lo] by simp_all
  moreover have "0 \<le> uint hi" "0 \<le> uint lo"
    by simp_all
  ultimately show ?thesis
    unfolding un_be16_def by linarith
qed

lemma extract_packet_seq_range:
  assumes "extract_packet d = Inr ((seq, ack, flags, rwnd), payload)"
  shows "0 \<le> seq \<and> seq \<le> 65535"
  using assms un_be16_range
  by (auto simp: extract_packet_def parse_header_def struct_unpack_HHHH_def split: if_splits)

lemma syn_packet: "create_packet 1 0 syn_flag 0 [] = Inr [0, 1, 0, 0, 0, 4, 0, 0]"
  by (simp add: eval_codec)

lemma handshake_ack_packet:
  "0 \<le> seq \<Longrightarrow> seq < 65535 \<Longrightarrow>
   create_packet 2 (seq + 1) ack_flag 0 [] = Inr (be16 2 @ be16 (seq + 1) @ be16 2 @ be16 0)"
  by (simp add: create_packet_def create_header_def struct_pack_HHHH_def u16_ok_def ack_flag_def)

text \<open>
  Claim C5 says that a reply with both the SYN and the ACK bit makes \<open>client_handshake\<close> return
  the smaller of the two windows. The function first answers with an ACK whose number is the
  reply's \<open>seq + 1\<close>. For a reply with \<open>seq = 65535\<close>, flags SYN and ACK and window 15, that is
  65536, \<open>struct.pack\<close> raises, and the function returns nothing instead of \<open>min 3 15\<close>.
\<close>

theorem handshake_seq_overflow_counterexample:
  "extract_packet (take 1024 [255, 255, 0, 0, 0, 6, 0, 15]) = Inr ((65535, 0, 6, 15), [])
   \<and> (6::int) AND syn_flag \<noteq> 0 \<and> (6::int) AND ack_flag \<noteq> 0
   \<and> client_handshake 3 [Datagram [255, 255, 0, 0, 0, 6, 0, 15]]
     = ([SendTo [0, 1, 0, 0, 0, 4, 0, 0], Print ''Connection Establishment Phase:'',
         Print ''SYN packet is sent'', SetTimeout 400, Print ''SYN-ACK packet is received''],
        Raised StructError)
   \<and> snd (client_handshake 3 [Datagram [255, 255, 0, 0, 0, 6, 0, 15]]) \<noteq> Returned (Some (min 3 15))"
  by (simp add: client_handshake_def timeout_ms_def eval_codec)

text \<open>
  Claim C5, amended. When the reply read by \<open>client_handshake\<close> carries both the SYN and the
  ACK bit and its sequence number is below 65535, the function returns the smaller of the
  requested window and the window field of the reply; when its sequence number is 65535 the
  function raises \<open>struct.error\<close>.
\<close>

theorem handshake_negotiates_window:
  assumes "extract_packet (take 1024 d) = Inr ((seq, ack, flags, recv_window), payload)"
    and "flags AND syn_flag \<noteq> 0" and "flags AND ack_flag \<noteq> 0"
  shows "(seq < 65535 \<longrightarrow>
            snd (client_handshake sender_window (Datagram d # rest))
              = Returned (Some (min sender_window recv_window)))
       \<and> (seq = 65535 \<longrightarrow>
            snd (client_handshake sender_window (Datagram d # rest)) = Raised StructError)"
proof -
  have r: "0 \<le> seq" "seq \<le> 65535"
    using extract_packet_seq_range [OF assms(1)] by simp_all
  have ok: "create_packet 2 (seq + 1) ack_flag 0 []
              = Inr (be16 2 @ be16 (seq + 1) @ be16 2 @ be16 0)" if "seq < 65535"
    using r that by (simp add: handshake_ack_packet)
  have bad: "create_packet 2 (seq + 1) ack_flag 0 [] = Inl StructError" if "seq = 65535"
    using that by (simp add: create_packet_def create_header_def struct_pack_HHHH_def u16_ok_def)
  show ?thesis
    using assms ok bad by (simp add: client_handshake_def syn_packet Let_def)
qed

theorem handshake_negotiates_window_witness:
  "snd (client_handshake 3 [Datagram [0, 0, 0, 2, 0, 6, 0, 15]]) = Returned (Some 3)
   \<and> snd (client_handshake 20 [Datagram [0, 0, 0, 2, 0, 6, 0, 15]]) = Returned (Some 15)
   \<and> snd (client_handshake 20 [Datagram [255, 255, 0, 2, 0, 6, 0, 15]]) = Raised StructError"
proof -
  have e: "extract_packet (take 1024 [0, 0, 0, 2, 0, 6, 0, 15]) = Inr ((0, 2, 6, 15), [])"
    by (simp add: eval_codec)
  have e': "extract_packet (take 1024 [255, 255, 0, 2, 0, 6, 0, 15]) = Inr ((65535, 2, 6, 15), [])"
    by (simp add: eval_codec)
  have s: "(6::int) AND syn_flag \<noteq> 0" and a: "(6::int) AND ack_flag \<noteq> 0"
    by (simp_all add: syn_flag_def ack_flag_def)
  show ?thesis
    using handshake_negotiates_window [OF e s a, of 3 "[]"]
      handshake_negotiates_window [OF e s a, of 20 "[]"]
      handshake_negotiates_window [OF e' s a, of 20 "[]"]
    by simp
qed

text \<open>
  Claim C7. When the one \<open>recvfrom\<close> of the handshake times out (the timeout set is 400 ms),
  \<open>client_handshake\<close> returns \<open>None\<close> having sent the SYN once and nothing else, and the client
  run prints \<open>Handshake failed\<close> and returns: its whole output is the SYN, the four lines of
  the handshake and that line, so no data packet and no FIN is sent and nothing more is read.
\<close>

theorem handshake_timeout_aborts:
  "client_handshake sender_window (Timeout # rest)
     = ([SendTo [0, 1, 0, 0, 0, 4, 0, 0], Print ''Connection Establishment Phase:'',
         Print ''SYN packet is sent'', SetTimeout 400, Print ''Timeout waiting for SYN-ACK''],
        Returned None)
   \<and> main_client sender_window file_data (Timeout # rest)
     = ([SendTo [0, 1, 0, 0, 0, 4, 0, 0], Print ''Connection Establishment Phase:'',
         Print ''SYN packet is sent'', SetTimeout 400, Print ''Timeout waiting for SYN-ACK'',
         Print ''Handshake failed''],
        Returned ())"
  by (simp add: main_client_def client_handshake_def syn_packet timeout_ms_def)

end
